theory Spec2Isabelle
  imports Main "HOL-Library.Multiset"
begin

section \<open>Note storage of Pomocnik\_jezykowy\_app.py\<close>

text \<open>
  The application keeps its notes in an in-memory vector database client and reaches
  it through three functions: \<open>assure_db_collection_exists\<close>, \<open>add_note_to_db\<close> and
  \<open>list_notes_from_db\<close>. They are embedded below as functions on an explicit client
  state. An exception is a value \<open>Inl e\<close>; a function that can write to the store
  returns its outcome together with the store it leaves behind, also when it raises.
\<close>

subsection \<open>Constants of the module\<close>

definition EMBEDDING_DIM :: nat where
  "EMBEDDING_DIM = 3072"

definition QDRANT_COLLECTION_NAME :: string where
  "QDRANT_COLLECTION_NAME = ''notes''"

subsection \<open>Data\<close>

datatype error =
    CollectionNotFound string
  | CollectionAlreadyExists string
  | KeyError string
  | IndexError
  | ProviderError string

datatype Distance = COSINE | EUCLID | DOT | MANHATTAN

record VectorParams =
  vp_size :: nat
  vp_distance :: Distance

text \<open>
  \<open>PointStruct(id, vector, payload)\<close>. The payload is a Python dictionary from strings
  to strings, kept as an association list read with \<open>map_of\<close>. The vector type is
  left open: the program never looks inside a vector.
\<close>

record 'v PointStruct =
  point_id :: int
  vector :: 'v
  payload :: "(string \<times> string) list"

record 'v Collection =
  config :: VectorParams
  points :: "'v PointStruct list"

type_synonym 'v QdrantClient = "string \<rightharpoonup> 'v Collection"

text \<open>A hit of a similarity query: the stored point's id and payload with its score.\<close>

record 's ScoredPoint =
  sp_id :: int
  sp_payload :: "(string \<times> string) list"
  sp_score :: 's

text \<open>
  The dictionaries \<open>{"text": ..., "score": ...}\<close> that \<open>list_notes_from_db\<close>
  returns; \<open>score\<close> is \<open>None\<close> or a number.
\<close>

record 's SearchResult =
  res_text :: string
  res_score :: "'s option"

text \<open>
  The collaborators the module calls but does not implement, taken as parameters:
  the embedding endpoint (\<open>openai_client.embeddings.create\<close>, given the list of
  inputs, answers with one embedding per input or raises), the similarity measure of
  the index, and the order in which the index enumerates its points when scrolled.
\<close>

record ('v, 's) env =
  embeddings_create :: "string list \<Rightarrow> error + 'v list"
  similarity :: "'v \<Rightarrow> 'v \<Rightarrow> 's"
  scroll_order :: "'v PointStruct list \<Rightarrow> 'v PointStruct list"

subsection \<open>The vector index\<close>

text \<open>
  Modelled from the spec: the client returned by \<open>get_qdrant_client\<close>
  (\<open>QdrantClient(path=":memory:")\<close>) starts without any collection.
\<close>

definition get_qdrant_client :: "'v QdrantClient" where
  "get_qdrant_client = Map.empty"

text \<open>
  Modelled from the spec: \<open>exists(name) -> bool\<close> of the VectorIndex contract; the
  library that implements it is not part of the repository.
\<close>

definition collection_exists :: "'v QdrantClient \<Rightarrow> string \<Rightarrow> bool" where
  "collection_exists c name = (c name \<noteq> None)"

text \<open>
  Modelled from the spec: \<open>create(name, dimension, metric)\<close> of the VectorIndex
  contract. The new collection is empty; creating a name that is taken is an error of
  the index and changes nothing.
\<close>

definition create_collection ::
  "string \<Rightarrow> VectorParams \<Rightarrow> 'v QdrantClient \<Rightarrow> (error + unit) \<times> 'v QdrantClient" where
  "create_collection name vectors_config c =
     (if collection_exists c name then (Inl (CollectionAlreadyExists name), c)
      else (Inr (), c(name \<mapsto> \<lparr>config = vectors_config, points = []\<rparr>)))"

text \<open>
  Modelled from the spec: \<open>count(name) -> integer\<close>, the exact number of stored
  records.
\<close>

definition count :: "string \<Rightarrow> 'v QdrantClient \<Rightarrow> error + int" where
  "count name c =
     (case c name of
        None \<Rightarrow> Inl (CollectionNotFound name)
      | Some col \<Rightarrow> Inr (int (length (points col))))"

text \<open>
  Modelled from the spec: \<open>insert(name, id, vector, payload)\<close>, called \<open>upsert\<close> by
  the client: a point whose id is already stored replaces the stored one, any other
  point is added. The points are kept in the order of their first insertion.
\<close>

fun upsert_point :: "'v PointStruct \<Rightarrow> 'v PointStruct list \<Rightarrow> 'v PointStruct list" where
  "upsert_point p [] = [p]"
| "upsert_point p (q # qs) =
     (if point_id q = point_id p then p # qs else q # upsert_point p qs)"

text \<open>
  Modelled from the spec: \<open>upsert(collection_name, points)\<close> writes the points of
  the list one after the other. Writing to a collection that does not exist is an
  error of the index and writes nothing.
\<close>

definition upsert ::
  "string \<Rightarrow> 'v PointStruct list \<Rightarrow> 'v QdrantClient \<Rightarrow> (error + unit) \<times> 'v QdrantClient" where
  "upsert name ps c =
     (case c name of
        None \<Rightarrow> (Inl (CollectionNotFound name), c)
      | Some col \<Rightarrow>
          (Inr (), c(name \<mapsto> col\<lparr>points := fold upsert_point ps (points col)\<rparr>)))"

text \<open>
  Modelled from the spec: \<open>scroll(name, limit) -> unordered sequence\<close>. The first
  \<open>limit\<close> points of the enumeration are returned; the enumeration order is the
  parameter \<open>order\<close>.
\<close>

definition scroll ::
  "('v PointStruct list \<Rightarrow> 'v PointStruct list) \<Rightarrow> string \<Rightarrow> nat \<Rightarrow> 'v QdrantClient
     \<Rightarrow> error + 'v PointStruct list" where
  "scroll order name limit c =
     (case c name of
        None \<Rightarrow> Inl (CollectionNotFound name)
      | Some col \<Rightarrow> Inr (take limit (order (points col))))"

text \<open>
  Modelled from the spec: \<open>search(name, vector, limit) -> ordered sequence of
  (id, payload, score) sorted by descending similarity\<close>. Every stored point is
  scored against the query vector, the hits are sorted by score, highest first, and
  the first \<open>limit\<close> of them are returned. The spec leaves the order of equal scores
  open; here it is the one the sort produces.
\<close>

definition score_point :: "('v \<Rightarrow> 'v \<Rightarrow> 's) \<Rightarrow> 'v \<Rightarrow> 'v PointStruct \<Rightarrow> 's ScoredPoint" where
  "score_point sim qv p =
     \<lparr>sp_id = point_id p, sp_payload = payload p, sp_score = sim qv (vector p)\<rparr>"

text \<open>
  Modelled from the spec: the \<open>search\<close> operation itself, on the points scored as
  above. Asking a collection that does not exist is an error of the index.
\<close>

definition search ::
  "('v \<Rightarrow> 'v \<Rightarrow> 's::linorder) \<Rightarrow> string \<Rightarrow> 'v \<Rightarrow> nat \<Rightarrow> 'v QdrantClient
     \<Rightarrow> error + 's ScoredPoint list" where
  "search sim name query_vector limit c =
     (case c name of
        None \<Rightarrow> Inl (CollectionNotFound name)
      | Some col \<Rightarrow>
          Inr (take limit (rev (sort_key sp_score
                 (map (score_point sim query_vector) (points col))))))"

subsection \<open>The functions of the module\<close>

text \<open>
  \<open>assure_db_collection_exists\<close>: the collection is created only when it is absent.
  The two \<open>print\<close> calls write to the console and leave the store alone; they are
  not part of the state.
\<close>

definition assure_db_collection_exists ::
  "'v QdrantClient \<Rightarrow> (error + unit) \<times> 'v QdrantClient" where
  "assure_db_collection_exists c =
     (if \<not> collection_exists c QDRANT_COLLECTION_NAME then
        create_collection QDRANT_COLLECTION_NAME
          \<lparr>vp_size = EMBEDDING_DIM, vp_distance = COSINE\<rparr> c
      else (Inr (), c))"

text \<open>
  \<open>get_embedding\<close>: one request with the single input \<open>[text]\<close>; the answer's first
  entry is returned. \<open>result.data[0]\<close> on an empty answer raises \<open>IndexError\<close>.
\<close>

definition get_embedding :: "('v, 's) env \<Rightarrow> string \<Rightarrow> error + 'v" where
  "get_embedding env text_in =
     (case embeddings_create env [text_in] of
        Inl e \<Rightarrow> Inl e
      | Inr data \<Rightarrow> (case data of [] \<Rightarrow> Inl IndexError | d # _ \<Rightarrow> Inr d))"

text \<open>
  \<open>add_note_to_db\<close> is two statements. The first reads the exact count. The second
  calls \<open>upsert\<close> with one point; its arguments are evaluated before the call, so the
  embedding is requested first and a failure there means \<open>upsert\<close> is never called.
\<close>

definition add_note_count :: "'v QdrantClient \<Rightarrow> error + int" where
  "add_note_count c = count QDRANT_COLLECTION_NAME c"

definition add_note_upsert ::
  "('v, 's) env \<Rightarrow> string \<Rightarrow> int \<Rightarrow> 'v QdrantClient \<Rightarrow> (error + unit) \<times> 'v QdrantClient" where
  "add_note_upsert env note_text points_count c =
     (case get_embedding env note_text of
        Inl e \<Rightarrow> (Inl e, c)
      | Inr v \<Rightarrow>
          upsert QDRANT_COLLECTION_NAME
            [\<lparr>point_id = points_count + 1, vector = v,
              payload = [(''text'', note_text)]\<rparr>] c)"

definition add_note_to_db ::
  "('v, 's) env \<Rightarrow> string \<Rightarrow> 'v QdrantClient \<Rightarrow> (error + unit) \<times> 'v QdrantClient" where
  "add_note_to_db env note_text c =
     (case add_note_count c of
        Inl e \<Rightarrow> (Inl e, c)
      | Inr points_count \<Rightarrow> add_note_upsert env note_text points_count c)"

text \<open>
  The same two statements with the operations of the client taken as parameters,
  over any type of store: what \<open>add_note_to_db\<close> does with whatever answer, error
  or store the client's \<open>count\<close> and \<open>upsert\<close> give it.
\<close>

definition add_note_to_db_on ::
  "(string \<Rightarrow> 'st \<Rightarrow> error + int) \<Rightarrow>
   (string \<Rightarrow> 'v PointStruct list \<Rightarrow> 'st \<Rightarrow> (error + unit) \<times> 'st) \<Rightarrow>
   ('v, 's) env \<Rightarrow> string \<Rightarrow> 'st \<Rightarrow> (error + unit) \<times> 'st" where
  "add_note_to_db_on count_op upsert_op env note_text st =
     (case count_op QDRANT_COLLECTION_NAME st of
        Inl e \<Rightarrow> (Inl e, st)
      | Inr points_count \<Rightarrow>
          (case get_embedding env note_text of
             Inl e \<Rightarrow> (Inl e, st)
           | Inr v \<Rightarrow>
               upsert_op QDRANT_COLLECTION_NAME
                 [\<lparr>point_id = points_count + 1, vector = v,
                   payload = [(''text'', note_text)]\<rparr>] st))"

text \<open>
  \<open>list_notes_from_db\<close>. \<open>note.payload["text"]\<close> raises \<open>KeyError\<close> when the payload
  has no such key. Both loops append one dictionary per note to \<open>result\<close>.
\<close>

definition payload_text :: "(string \<times> string) list \<Rightarrow> error + string" where
  "payload_text pl =
     (case map_of pl ''text'' of None \<Rightarrow> Inl (KeyError ''text'') | Some t \<Rightarrow> Inr t)"

fun browse_loop ::
  "'v PointStruct list \<Rightarrow> 's SearchResult list \<Rightarrow> error + 's SearchResult list" where
  "browse_loop [] result = Inr result"
| "browse_loop (note # notes) result =
     (case payload_text (payload note) of
        Inl e \<Rightarrow> Inl e
      | Inr t \<Rightarrow> browse_loop notes (result @ [\<lparr>res_text = t, res_score = None\<rparr>]))"

fun search_loop ::
  "'s ScoredPoint list \<Rightarrow> 's SearchResult list \<Rightarrow> error + 's SearchResult list" where
  "search_loop [] result = Inr result"
| "search_loop (note # notes) result =
     (case payload_text (sp_payload note) of
        Inl e \<Rightarrow> Inl e
      | Inr t \<Rightarrow>
          search_loop notes (result @ [\<lparr>res_text = t, res_score = Some (sp_score note)\<rparr>]))"

text \<open>
  The branch taken when \<open>not query\<close> holds: one scroll with \<open>limit=12\<close>, every
  item with score \<open>None\<close>.
\<close>

definition browse_notes ::
  "('v, 's) env \<Rightarrow> 'v QdrantClient \<Rightarrow> error + 's SearchResult list" where
  "browse_notes env c =
     (case scroll (scroll_order env) QDRANT_COLLECTION_NAME 12 c of
        Inl e \<Rightarrow> Inl e
      | Inr notes \<Rightarrow> browse_loop notes [])"

text \<open>
  The \<open>else\<close> branch: the query is embedded (an argument of the call, so before
  the index is asked), then one search with \<open>limit=10\<close>.
\<close>

definition search_notes ::
  "('v, 's::linorder) env \<Rightarrow> string \<Rightarrow> 'v QdrantClient \<Rightarrow> error + 's SearchResult list" where
  "search_notes env query c =
     (case get_embedding env query of
        Inl e \<Rightarrow> Inl e
      | Inr qv \<Rightarrow>
          (case search (similarity env) QDRANT_COLLECTION_NAME qv 10 c of
             Inl e \<Rightarrow> Inl e
           | Inr notes \<Rightarrow> search_loop notes []))"

text \<open>
  \<open>list_notes_from_db(query=None)\<close>: \<open>not query\<close> holds for \<open>None\<close> and for the
  empty string.
\<close>

definition list_notes_from_db ::
  "('v, 's::linorder) env \<Rightarrow> string option \<Rightarrow> 'v QdrantClient \<Rightarrow> error + 's SearchResult list" where
  "list_notes_from_db env query c =
     (case query of
        None \<Rightarrow> browse_notes env c
      | Some q \<Rightarrow> if q = [] then browse_notes env c else search_notes env q c)"

subsection \<open>Sequences of calls\<close>

text \<open>
  The script calls the three functions one after the other on the one cached client.
  A call that raises ends that run of the script and leaves the client as it is at
  that moment; the next run goes on from there.
\<close>

datatype call = Assure | Add string | ListNotes "string option"

fun exec :: "('v, 's) env \<Rightarrow> call \<Rightarrow> 'v QdrantClient \<Rightarrow> 'v QdrantClient" where
  "exec env Assure c = snd (assure_db_collection_exists c)"
| "exec env (Add note_text) c = snd (add_note_to_db env note_text c)"
| "exec env (ListNotes query) c = c"

definition run :: "('v, 's) env \<Rightarrow> call list \<Rightarrow> 'v QdrantClient \<Rightarrow> 'v QdrantClient" where
  "run env calls c = fold (exec env) calls c"

subsection \<open>Two calls of \<open>add_note_to_db\<close> at once\<close>

text \<open>
  Two sessions share the cached client. Each call of \<open>add_note_to_db\<close> is at its
  first statement, or at its second with the count it has read, or finished. A step
  runs one statement of one call; nothing orders the steps of the two calls.
\<close>

datatype add_pc = AtCount string | AtUpsert string int | Done "error + unit"

fun add_step ::
  "('v, 's) env \<Rightarrow> add_pc \<Rightarrow> 'v QdrantClient \<Rightarrow> (add_pc \<times> 'v QdrantClient) option" where
  "add_step env (AtCount note_text) c =
     Some (case add_note_count c of
             Inl e \<Rightarrow> (Done (Inl e), c)
           | Inr points_count \<Rightarrow> (AtUpsert note_text points_count, c))"
| "add_step env (AtUpsert note_text points_count) c =
     Some (case add_note_upsert env note_text points_count c of (r, c') \<Rightarrow> (Done r, c'))"
| "add_step env (Done r) c = None"

inductive par_step ::
  "('v, 's) env \<Rightarrow> add_pc \<times> add_pc \<times> 'v QdrantClient
     \<Rightarrow> add_pc \<times> add_pc \<times> 'v QdrantClient \<Rightarrow> bool"
  for env where
  first: "add_step env p c = Some (p', c') \<Longrightarrow> par_step env (p, q, c) (p', q, c')"
| second: "add_step env q c = Some (q', c') \<Longrightarrow> par_step env (p, q, c) (p, q', c')"

subsection \<open>Concrete collaborators\<close>

text \<open>
  A small instance used to run the definitions: vectors and scores are integers,
  the embedding of a text is its length, the similarity of two vectors is the
  negated distance between them, and the index enumerates its points in the order
  it stores them.
\<close>

definition demo_env :: "(int, int) env" where
  "demo_env =
     \<lparr>embeddings_create = (\<lambda>inputs. Inr (map (\<lambda>s. int (length s)) inputs)),
      similarity = (\<lambda>a b. - \<bar>a - b\<bar>),
      scroll_order = (\<lambda>ps. ps)\<rparr>"

text \<open>The same with an embedding endpoint that is down.\<close>

definition down_env :: "(int, int) env" where
  "down_env = demo_env\<lparr>embeddings_create := (\<lambda>inputs. Inl (ProviderError ''unavailable''))\<rparr>"

text \<open>
  An index whose write is refused: \<open>upsert\<close> raises and writes nothing.
\<close>

definition refusing_upsert ::
  "string \<Rightarrow> 'v PointStruct list \<Rightarrow> 'st \<Rightarrow> (error + unit) \<times> 'st" where
  "refusing_upsert name ps st = (Inl (ProviderError ''index write failed''), st)"

text \<open>
  The calls that fill a new store with twelve notes, as many as one browse shows.
\<close>

definition twelve_notes :: "call list" where
  "twelve_notes =
     [Assure, Add ''n01'', Add ''n02'', Add ''n03'', Add ''n04'', Add ''n05'', Add ''n06'',
      Add ''n07'', Add ''n08'', Add ''n09'', Add ''n10'', Add ''n11'', Add ''n12'']"

subsection \<open>Invariant of the store\<close>

text \<open>
  What holds of the collection after any sequence of calls: the stored ids are
  \<open>1, 2, ..., n\<close> in the order of insertion, every payload has the key \<open>text\<close>,
  and the configuration is the one \<open>assure_db_collection_exists\<close> gives.
\<close>

definition ids_sequential :: "'v PointStruct list \<Rightarrow> bool" where
  "ids_sequential ps = (map point_id ps = [1 .. int (length ps)])"

definition has_text :: "'v PointStruct \<Rightarrow> bool" where
  "has_text p = (map_of (payload p) ''text'' \<noteq> None)"

definition store_inv :: "'v QdrantClient \<Rightarrow> bool" where
  "store_inv c =
     (\<forall>col. c QDRANT_COLLECTION_NAME = Some col \<longrightarrow>
        ids_sequential (points col) \<and> list_all has_text (points col) \<and>
        config col = \<lparr>vp_size = 3072, vp_distance = COSINE\<rparr>)"

section \<open>Properties\<close>

subsection \<open>The index operations\<close>

lemma upsert_point_fresh:
  "point_id p \<notin> point_id ` set qs \<Longrightarrow> upsert_point p qs = qs @ [p]"
  by (induction qs) auto

lemma ids_sequential_fresh:
  assumes "ids_sequential ps"
  shows "int (length ps) + 1 \<notin> point_id ` set ps"
proof -
  have "point_id ` set ps = set (map point_id ps)" by simp
  also have "\<dots> = {1 .. int (length ps)}"
    using assms by (simp only: ids_sequential_def set_upto)
  finally show ?thesis by simp
qed

lemma ids_sequential_snoc:
  assumes "ids_sequential ps" and "point_id p = int (length ps) + 1"
  shows "ids_sequential (ps @ [p])"
proof -
  have "[1 .. int (length ps) + 1] = [1 .. int (length ps)] @ [int (length ps) + 1]"
    by (simp add: upto_rec2)
  with assms show ?thesis
    by (simp add: ids_sequential_def add.commute)
qed

lemma assure_absent:
  "c QDRANT_COLLECTION_NAME = None \<Longrightarrow>
   assure_db_collection_exists c =
     (Inr (), c(QDRANT_COLLECTION_NAME \<mapsto>
        \<lparr>config = \<lparr>vp_size = 3072, vp_distance = COSINE\<rparr>, points = []\<rparr>))"
  by (simp add: assure_db_collection_exists_def create_collection_def collection_exists_def
      EMBEDDING_DIM_def)

lemma assure_present:
  "c QDRANT_COLLECTION_NAME = Some col \<Longrightarrow> assure_db_collection_exists c = (Inr (), c)"
  by (simp add: assure_db_collection_exists_def collection_exists_def)

lemma add_note_absent:
  "c QDRANT_COLLECTION_NAME = None \<Longrightarrow>
   add_note_to_db env t c = (Inl (CollectionNotFound QDRANT_COLLECTION_NAME), c)"
  by (simp add: add_note_to_db_def add_note_count_def count_def)

lemma add_note_embed_fails:
  "c QDRANT_COLLECTION_NAME = Some col \<Longrightarrow> get_embedding env t = Inl e \<Longrightarrow>
   add_note_to_db env t c = (Inl e, c)"
  by (simp add: add_note_to_db_def add_note_count_def count_def add_note_upsert_def)

lemma add_note_present:
  "c QDRANT_COLLECTION_NAME = Some col \<Longrightarrow> get_embedding env t = Inr v \<Longrightarrow>
   add_note_to_db env t c =
     (Inr (), c(QDRANT_COLLECTION_NAME \<mapsto> col\<lparr>points :=
        upsert_point \<lparr>point_id = int (length (points col)) + 1, vector = v,
                      payload = [(''text'', t)]\<rparr> (points col)\<rparr>))"
  by (simp add: add_note_to_db_def add_note_count_def count_def add_note_upsert_def upsert_def)

lemma add_note_sequential:
  assumes "c QDRANT_COLLECTION_NAME = Some col" and "get_embedding env t = Inr v"
    and "ids_sequential (points col)"
  shows "add_note_to_db env t c =
     (Inr (), c(QDRANT_COLLECTION_NAME \<mapsto> col\<lparr>points :=
        points col @ [\<lparr>point_id = int (length (points col)) + 1, vector = v,
                       payload = [(''text'', t)]\<rparr>]\<rparr>))"
  using assms ids_sequential_fresh [OF assms(3)]
  by (simp add: add_note_present upsert_point_fresh)

lemma store_inv_empty: "store_inv get_qdrant_client"
  by (simp add: store_inv_def get_qdrant_client_def)

lemma store_inv_assure: "store_inv c \<Longrightarrow> store_inv (snd (assure_db_collection_exists c))"
proof (cases "c QDRANT_COLLECTION_NAME")
  case None
  then show ?thesis
    by (simp add: assure_absent store_inv_def ids_sequential_def)
next
  case (Some col)
  assume "store_inv c"
  with Some show ?thesis by (simp add: assure_present)
qed

lemma store_inv_add: 
  assumes "store_inv c" shows "store_inv (snd (add_note_to_db env t c))"
proof (cases "c QDRANT_COLLECTION_NAME")
  case None
  with assms show ?thesis by (simp add: add_note_absent)
next
  case (Some col)
  with assms have seq: "ids_sequential (points col)" and txs: "list_all has_text (points col)"
    and cfg: "config col = \<lparr>vp_size = 3072, vp_distance = COSINE\<rparr>"
    by (simp_all add: store_inv_def)
  show ?thesis
  proof (cases "get_embedding env t")
    case (Inl e)
    with Some assms show ?thesis by (simp add: add_note_embed_fails)
  next
    case (Inr v)
    show ?thesis
      using seq txs cfg
      by (simp add: add_note_sequential [where c = c, OF Some Inr seq] store_inv_def
          ids_sequential_snoc has_text_def)
  qed
qed

lemma store_inv_exec: "store_inv c \<Longrightarrow> store_inv (exec env k c)"
  by (cases k) (simp_all add: store_inv_assure store_inv_add)

lemma store_inv_run: "store_inv c \<Longrightarrow> store_inv (run env calls c)"
  unfolding run_def by (induction calls arbitrary: c) (simp_all add: store_inv_exec)

lemma store_inv_reachable: "store_inv (run env calls get_qdrant_client)"
  by (rule store_inv_run [OF store_inv_empty])


subsection \<open>Running the definitions\<close>

lemma run_Nil: "run env [] c = c"
  by (simp add: run_def)

lemma run_Cons: "run env (k # calls) c = run env calls (exec env k c)"
  by (simp add: run_def)

lemma run_append: "run env (xs @ ys) c = run env ys (run env xs c)"
  by (simp add: run_def)

lemma demo_embedding: "get_embedding demo_env t = Inr (int (length t))"
  by (simp add: get_embedding_def demo_env_def)

lemma down_embedding: "get_embedding down_env t = Inl (ProviderError ''unavailable'')"
  by (simp add: get_embedding_def down_env_def demo_env_def)

lemmas eval_defs =
  run_Nil run_Cons assure_db_collection_exists_def create_collection_def collection_exists_def
  add_note_to_db_def add_note_count_def add_note_upsert_def count_def upsert_def
  get_qdrant_client_def QDRANT_COLLECTION_NAME_def EMBEDDING_DIM_def
  demo_embedding down_embedding

lemma exec_extends:
  assumes "store_inv c" and "c QDRANT_COLLECTION_NAME = Some col"
  shows "\<exists>col' rest. exec env k c QDRANT_COLLECTION_NAME = Some col' \<and>
           points col' = points col @ rest"
proof (cases k)
  case Assure
  with assms(2) show ?thesis by (simp add: assure_present)
next
  case (Add t)
  from assms have seq: "ids_sequential (points col)"
    by (simp add: store_inv_def)
  show ?thesis
  proof (cases "get_embedding env t")
    case (Inl e)
    with Add assms(2) show ?thesis by (simp add: add_note_embed_fails)
  next
    case (Inr v)
    with Add show ?thesis
      by (simp add: add_note_sequential [where c = c, OF assms(2) Inr seq])
  qed
next
  case (ListNotes q)
  with assms(2) show ?thesis by simp
qed

lemma run_extends:
  "store_inv c \<Longrightarrow> c QDRANT_COLLECTION_NAME = Some col \<Longrightarrow>
   \<exists>col' rest. run env calls c QDRANT_COLLECTION_NAME = Some col' \<and>
     points col' = points col @ rest"
proof (induction calls arbitrary: c col)
  case Nil
  then show ?case by (simp add: run_Nil)
next
  case (Cons k calls)
  from exec_extends [OF Cons.prems, of env k] obtain col1 rest1
    where e: "exec env k c QDRANT_COLLECTION_NAME = Some col1"
      and p: "points col1 = points col @ rest1"
    by blast
  have "store_inv (exec env k c)"
    using Cons.prems(1) by (rule store_inv_exec)
  from Cons.IH [OF this e] obtain col' rest
    where "run env calls (exec env k c) QDRANT_COLLECTION_NAME = Some col'"
      and "points col' = points col1 @ rest"
    by blast
  with p show ?case
    by (simp add: run_Cons)
qed

subsection \<open>The two loops of \<open>list_notes_from_db\<close>\<close>

lemma browse_loop_eq:
  "browse_loop ns acc =
     (if list_all has_text ns
      then Inr (acc @ map (\<lambda>p. \<lparr>res_text = the (map_of (payload p) ''text''),
                                 res_score = None\<rparr>) ns)
      else Inl (KeyError ''text''))"
  by (induction ns arbitrary: acc)
     (auto simp: payload_text_def has_text_def split: option.splits)

lemma search_loop_eq:
  "search_loop ns acc =
     (if list_all (\<lambda>n. map_of (sp_payload n) ''text'' \<noteq> None) ns
      then Inr (acc @ map (\<lambda>n. \<lparr>res_text = the (map_of (sp_payload n) ''text''),
                                 res_score = Some (sp_score n)\<rparr>) ns)
      else Inl (KeyError ''text''))"
  by (induction ns arbitrary: acc)
     (auto simp: payload_text_def split: option.splits)

lemma browse_notes_Inr:
  assumes "browse_notes env c = Inr r"
  shows "length r \<le> 12 \<and> (\<forall>x \<in> set r. res_score x = None) \<and>
         (\<exists>col. c QDRANT_COLLECTION_NAME = Some col \<and>
            map (\<lambda>x. Some (res_text x)) r =
              map (\<lambda>p. map_of (payload p) ''text'')
                (take 12 (scroll_order env (points col))))"
proof (cases "c QDRANT_COLLECTION_NAME")
  case None
  with assms show ?thesis
    by (simp add: browse_notes_def scroll_def)
next
  case (Some col)
  let ?notes = "take 12 (scroll_order env (points col))"
  from assms Some have ok: "list_all has_text ?notes"
    and r: "r = map (\<lambda>p. \<lparr>res_text = the (map_of (payload p) ''text''),
                          res_score = None\<rparr>) ?notes"
    by (auto simp: browse_notes_def scroll_def browse_loop_eq split: if_splits)
  have "map (\<lambda>x. Some (res_text x)) r = map (\<lambda>p. map_of (payload p) ''text'') ?notes"
    using ok unfolding r by (induction ?notes) (auto simp: has_text_def o_def list_all_iff)
  with Some r show ?thesis by auto
qed

lemma browse_notes_returns:
  assumes "store_inv c" and "c QDRANT_COLLECTION_NAME = Some col"
    and "mset (scroll_order env (points col)) = mset (points col)"
  shows "\<exists>r. browse_notes env c = Inr r"
proof -
  from assms(1,2) have "list_all has_text (points col)"
    by (simp add: store_inv_def)
  moreover have "set (scroll_order env (points col)) = set (points col)"
    using assms(3) by (rule mset_eq_setD)
  ultimately have "list_all has_text (take 12 (scroll_order env (points col)))"
    by (auto simp: list_all_iff dest: in_set_takeD)
  with assms(2) show ?thesis
    by (simp add: browse_notes_def scroll_def browse_loop_eq)
qed

lemma descending_hits:
  "sorted_wrt (\<lambda>a b. b \<le> a) (map sp_score (take n (rev (sort_key sp_score xs))))"
proof -
  have "sorted (map sp_score (sort_key sp_score xs))"
    by simp
  then have "sorted_wrt (\<lambda>a b. b \<le> a) (rev (map sp_score (sort_key sp_score xs)))"
    by (simp add: sorted_wrt_rev)
  then have "sorted_wrt (\<lambda>a b. b \<le> a) (take n (rev (map sp_score (sort_key sp_score xs))))"
    by (rule sorted_wrt_take)
  then show ?thesis
    by (simp add: take_map rev_map)
qed

lemma search_notes_Inr:
  assumes "search_notes env q c = Inr r"
  shows "\<exists>qv col. get_embedding env q = Inr qv \<and> c QDRANT_COLLECTION_NAME = Some col \<and>
           length r \<le> 10 \<and>
           (\<forall>x \<in> set r. \<exists>p \<in> set (points col).
              map_of (payload p) ''text'' = Some (res_text x) \<and>
              res_score x = Some (similarity env qv (vector p))) \<and>
           (\<exists>ss. map res_score r = map Some ss \<and> sorted_wrt (\<lambda>a b. b \<le> a) ss)"
proof (cases "get_embedding env q")
  case (Inl e)
  with assms show ?thesis by (simp add: search_notes_def)
next
  case (Inr qv)
  show ?thesis
  proof (cases "c QDRANT_COLLECTION_NAME")
    case None
    with assms Inr show ?thesis by (simp add: search_notes_def search_def)
  next
    case (Some col)
    let ?scored = "map (score_point (similarity env) qv) (points col)"
    let ?hits = "take 10 (rev (sort_key sp_score ?scored))"
    let ?item = "\<lambda>n. \<lparr>res_text = the (map_of (sp_payload n) ''text''),
                       res_score = Some (sp_score n)\<rparr>"
    from assms Inr Some
    have ok: "list_all (\<lambda>n. map_of (sp_payload n) ''text'' \<noteq> None) ?hits"
      and r: "r = map ?item ?hits"
      by (auto simp: search_notes_def search_def search_loop_eq split: if_splits)
    have len: "length r \<le> 10"
      by (simp add: r)
    have each: "\<exists>p \<in> set (points col).
        map_of (payload p) ''text'' = Some (res_text x) \<and>
        res_score x = Some (similarity env qv (vector p))" if "x \<in> set r" for x
    proof -
      from that r obtain n where n: "n \<in> set ?hits" and x: "x = ?item n"
        by auto
      from n have "n \<in> set ?scored"
        by (auto dest: in_set_takeD)
      then obtain p where p: "p \<in> set (points col)"
        and np: "n = score_point (similarity env) qv p"
        by auto
      from ok n have "map_of (sp_payload n) ''text'' \<noteq> None"
        by (simp add: list_all_iff)
      with x np have "map_of (payload p) ''text'' = Some (res_text x) \<and>
          res_score x = Some (similarity env qv (vector p))"
        by (auto simp: score_point_def)
      with p show ?thesis by blast
    qed
    have "map res_score r = map Some (map sp_score ?hits)"
      by (simp add: r o_def)
    moreover have "sorted_wrt (\<lambda>a b. b \<le> a) (map sp_score ?hits)"
      by (rule descending_hits)
    ultimately have "\<exists>ss. map res_score r = map Some ss \<and> sorted_wrt (\<lambda>a b. b \<le> a) ss"
      by blast
    with Inr Some len each show ?thesis by blast
  qed
qed

lemma search_notes_returns:
  assumes "store_inv c" and "c QDRANT_COLLECTION_NAME = Some col"
    and "get_embedding env q = Inr qv"
  shows "\<exists>r. search_notes env q c = Inr r"
proof -
  let ?scored = "map (score_point (similarity env) qv) (points col)"
  from assms(1,2) have "list_all has_text (points col)"
    by (simp add: store_inv_def)
  then have "list_all (\<lambda>n. map_of (sp_payload n) ''text'' \<noteq> None) ?scored"
    by (simp add: list_all_iff has_text_def score_point_def)
  then have "list_all (\<lambda>n. map_of (sp_payload n) ''text'' \<noteq> None)
      (take 10 (rev (sort_key sp_score ?scored)))"
    unfolding list_all_iff by (auto dest!: in_set_takeD)
  with assms(2,3) show ?thesis
    by (simp add: search_notes_def search_def search_loop_eq)
qed

lemmas list_eval_defs =
  list_notes_from_db_def browse_notes_def search_notes_def scroll_def search_def
  score_point_def payload_text_def

lemma demo_env_sel:
  "scroll_order demo_env = (\<lambda>ps. ps)"
  "similarity demo_env = (\<lambda>a b. - \<bar>a - b\<bar>)"
  "scroll_order down_env = (\<lambda>ps. ps)"
  "similarity down_env = (\<lambda>a b. - \<bar>a - b\<bar>)"
  by (simp_all add: demo_env_def down_env_def)

lemma browse_after_add:
  assumes "store_inv c" and "c QDRANT_COLLECTION_NAME = Some col"
    and "length (points col) < 12"
    and "get_embedding env note_text = Inr v"
    and "mset (scroll_order env (points col @ [\<lparr>point_id = int (length (points col)) + 1,
            vector = v, payload = [(''text'', note_text)]\<rparr>])) =
         mset (points col @ [\<lparr>point_id = int (length (points col)) + 1,
            vector = v, payload = [(''text'', note_text)]\<rparr>])"
  shows "fst (add_note_to_db env note_text c) = Inr () \<and>
         (\<exists>r. browse_notes env (snd (add_note_to_db env note_text c)) = Inr r \<and>
            (\<exists>x \<in> set r. res_text x = note_text \<and> res_score x = None))"
proof -
  let ?new = "\<lparr>point_id = int (length (points col)) + 1, vector = v,
               payload = [(''text'', note_text)]\<rparr>"
  let ?ps = "points col @ [?new]"
  let ?c' = "c(QDRANT_COLLECTION_NAME \<mapsto> col\<lparr>points := ?ps\<rparr>)"
  let ?item = "\<lambda>p :: 'a PointStruct. \<lparr>res_text = the (map_of (payload p) ''text''),
                 res_score = None :: 'c option\<rparr>"
  from assms(1,2) have seq: "ids_sequential (points col)"
    and txs: "list_all has_text (points col)"
    by (simp_all add: store_inv_def)
  have added: "add_note_to_db env note_text c = (Inr (), ?c')"
    using assms(2,4) seq by (rule add_note_sequential)
  have same_set: "set (scroll_order env ?ps) = set ?ps"
    using assms(5) by (rule mset_eq_setD)
  have "length (scroll_order env ?ps) = length ?ps"
    using assms(5) by (rule mset_eq_length)
  with assms(3) have all: "take 12 (scroll_order env ?ps) = scroll_order env ?ps"
    by simp
  have "list_all has_text ?ps"
    using txs by (simp add: has_text_def)
  with same_set have ok: "list_all has_text (scroll_order env ?ps)"
    by (simp add: list_all_iff)
  have browse: "browse_notes env ?c' = Inr (map ?item (scroll_order env ?ps))"
    using ok by (simp add: browse_notes_def scroll_def all browse_loop_eq)
  have mem: "?new \<in> set (scroll_order env ?ps)"
    by (simp add: same_set)
  have "\<exists>p \<in> set (scroll_order env ?ps).
      res_text (?item p) = note_text \<and> res_score (?item p) = None"
    by (rule bexI [OF _ mem]) simp
  then have "\<exists>x \<in> set (map ?item (scroll_order env ?ps)).
      res_text x = note_text \<and> res_score x = None"
    by simp
  with browse added show ?thesis by simp
qed

subsection \<open>The statements of \<open>add_note_to_db\<close> as steps\<close>

lemma upsert_point_replace_last:
  "point_id p \<notin> point_id ` set qs \<Longrightarrow> point_id p' = point_id p \<Longrightarrow>
   upsert_point p' (qs @ [p]) = qs @ [p']"
  by (induction qs) auto

lemma add_step_sequential:
  "add_step env (AtCount t) c =
     Some (case add_note_count c of
             Inl e \<Rightarrow> (Done (Inl e), c) | Inr n \<Rightarrow> (AtUpsert t n, c)) \<and>
   (add_note_count c = Inl e \<longrightarrow> add_note_to_db env t c = (Inl e, c)) \<and>
   (add_note_count c = Inr n \<longrightarrow>
      add_step env (AtUpsert t n) c =
        Some (Done (fst (add_note_to_db env t c)), snd (add_note_to_db env t c)))"
  by (simp add: add_note_to_db_def split: prod.splits)

lemma add_note_to_db_on_model:
  "add_note_to_db env note_text c = add_note_to_db_on count upsert env note_text c"
  by (simp add: add_note_to_db_def add_note_to_db_on_def add_note_count_def
      add_note_upsert_def split: sum.splits)

lemma get_embedding_Inl:
  "get_embedding env t = Inl e \<longleftrightarrow>
     embeddings_create env [t] = Inl e \<or> (embeddings_create env [t] = Inr [] \<and> e = IndexError)"
  by (auto simp: get_embedding_def split: sum.splits list.splits)

section \<open>Claims\<close>

text \<open>
  C3. \<open>assure_db_collection_exists\<close> is idempotent. When the collection \<open>notes\<close>
  exists, the call returns normally and leaves the whole client, and so the
  collection's dimension and metric, as it was. When it does not exist, the call
  returns normally and adds the empty collection with dimension 3072 and cosine
  distance. A second call straight after a first returns normally and changes nothing.
\<close>

theorem assure_idempotent:
  "(collection_exists c QDRANT_COLLECTION_NAME \<longrightarrow>
      assure_db_collection_exists c = (Inr (), c)) \<and>
   (\<not> collection_exists c QDRANT_COLLECTION_NAME \<longrightarrow>
      assure_db_collection_exists c =
        (Inr (), c(QDRANT_COLLECTION_NAME \<mapsto>
           \<lparr>config = \<lparr>vp_size = 3072, vp_distance = COSINE\<rparr>, points = []\<rparr>))) \<and>
   assure_db_collection_exists (snd (assure_db_collection_exists c)) =
     (Inr (), snd (assure_db_collection_exists c))"
proof (cases "c QDRANT_COLLECTION_NAME")
  case None
  then show ?thesis
    by (simp add: assure_absent assure_present collection_exists_def)
next
  case (Some col)
  then show ?thesis
    by (simp add: assure_present collection_exists_def)
qed

theorem assure_idempotent_witness:
  "\<not> collection_exists (get_qdrant_client :: int QdrantClient) QDRANT_COLLECTION_NAME \<and>
   assure_db_collection_exists (get_qdrant_client :: int QdrantClient) =
     (Inr (), [''notes'' \<mapsto> \<lparr>config = \<lparr>vp_size = 3072, vp_distance = COSINE\<rparr>, points = []\<rparr>]) \<and>
   collection_exists
     ([''notes'' \<mapsto> \<lparr>config = \<lparr>vp_size = 3072, vp_distance = COSINE\<rparr>, points = []\<rparr>]
        :: int QdrantClient) QDRANT_COLLECTION_NAME \<and>
   assure_db_collection_exists
     ([''notes'' \<mapsto> \<lparr>config = \<lparr>vp_size = 3072, vp_distance = COSINE\<rparr>, points = []\<rparr>]
        :: int QdrantClient) =
     (Inr (), [''notes'' \<mapsto> \<lparr>config = \<lparr>vp_size = 3072, vp_distance = COSINE\<rparr>, points = []\<rparr>])"
  using assure_idempotent [of "get_qdrant_client :: int QdrantClient"]
    assure_idempotent [of "[''notes'' \<mapsto> \<lparr>config = \<lparr>vp_size = 3072, vp_distance = COSINE\<rparr>, points = []\<rparr>]
        :: int QdrantClient"]
  by (simp add: collection_exists_def get_qdrant_client_def QDRANT_COLLECTION_NAME_def)

text \<open>
  C1. In every state reached by a sequence of calls on a new client in which the
  collection exists, a call of \<open>add_note_to_db\<close> whose embedding request succeeds
  reads the count \<open>n\<close>, returns normally, and leaves the store with exactly one more
  point, appended with id \<open>n + 1\<close> and the payload \<open>{"text": note_text}\<close>; the count
  afterwards is \<open>n + 1\<close>.
\<close>

theorem add_note_increases_count:
  assumes "c = run env calls get_qdrant_client"
    and "c QDRANT_COLLECTION_NAME = Some col"
    and "get_embedding env note_text = Inr v"
    and "n = int (length (points col))"
    and "c' = c(QDRANT_COLLECTION_NAME \<mapsto> col\<lparr>points :=
               points col @ [\<lparr>point_id = n + 1, vector = v,
                              payload = [(''text'', note_text)]\<rparr>]\<rparr>)"
  shows "count QDRANT_COLLECTION_NAME c = Inr n \<and>
         add_note_to_db env note_text c = (Inr (), c') \<and>
         count QDRANT_COLLECTION_NAME c' = Inr (n + 1)"
proof -
  have "store_inv c"
    using assms(1) by (simp add: store_inv_reachable)
  with assms(2) have seq: "ids_sequential (points col)"
    by (simp add: store_inv_def)
  have "add_note_to_db env note_text c = (Inr (), c')"
    using add_note_sequential [where c = c, OF assms(2) assms(3) seq] assms(4,5) by simp
  moreover have "count QDRANT_COLLECTION_NAME c = Inr n"
    using assms(2,4) by (simp add: count_def)
  moreover have "count QDRANT_COLLECTION_NAME c' = Inr (n + 1)"
    using assms(4,5) by (simp add: count_def)
  ultimately show ?thesis by simp
qed

theorem add_note_increases_count_witness:
  "count QDRANT_COLLECTION_NAME (run demo_env [Assure, Add ''ab''] get_qdrant_client) = Inr 1 \<and>
   fst (add_note_to_db demo_env ''hello'' (run demo_env [Assure, Add ''ab''] get_qdrant_client))
     = Inr () \<and>
   map_option points
     (snd (add_note_to_db demo_env ''hello'' (run demo_env [Assure, Add ''ab''] get_qdrant_client))
        QDRANT_COLLECTION_NAME) =
     Some [\<lparr>point_id = 1, vector = 2, payload = [(''text'', ''ab'')]\<rparr>,
           \<lparr>point_id = 2, vector = 5, payload = [(''text'', ''hello'')]\<rparr>] \<and>
   count QDRANT_COLLECTION_NAME
     (snd (add_note_to_db demo_env ''hello'' (run demo_env [Assure, Add ''ab''] get_qdrant_client)))
     = Inr 2"
proof -
  let ?col = "\<lparr>config = \<lparr>vp_size = 3072, vp_distance = COSINE\<rparr>,
        points = [\<lparr>point_id = 1, vector = 2::int, payload = [(''text'', ''ab'')]\<rparr>]\<rparr>"
  have "run demo_env [Assure, Add ''ab''] get_qdrant_client QDRANT_COLLECTION_NAME = Some ?col"
    by (simp add: eval_defs)
  from add_note_increases_count [OF refl this demo_embedding refl refl, of "''hello''"]
  show ?thesis
    by simp
qed


text \<open>
  C8. After any sequence of calls on a new client, the stored ids are exactly
  \<open>1, ..., n\<close> for the \<open>n\<close> stored notes: each is positive, no two are equal, and the
  note that a successful \<open>add_note_to_db\<close> stored when the count was \<open>k\<close> is still
  there, at position \<open>k\<close>, with id \<open>k + 1\<close>.
\<close>

theorem stored_ids_one_to_n:
  assumes "run env calls get_qdrant_client QDRANT_COLLECTION_NAME = Some col"
  shows "map point_id (points col) = [1 .. int (length (points col))] \<and>
         distinct (map point_id (points col)) \<and>
         (\<forall>p \<in> set (points col). 0 < point_id p) \<and>
         (\<forall>pre note_text post colp v.
            calls = pre @ Add note_text # post \<and>
            run env pre get_qdrant_client QDRANT_COLLECTION_NAME = Some colp \<and>
            get_embedding env note_text = Inr v \<longrightarrow>
              length (points colp) < length (points col) \<and>
              points col ! length (points colp) =
                \<lparr>point_id = int (length (points colp)) + 1, vector = v,
                 payload = [(''text'', note_text)]\<rparr>)"
proof -
  have "store_inv (run env calls get_qdrant_client)"
    by (rule store_inv_reachable)
  with assms have ids: "map point_id (points col) = [1 .. int (length (points col))]"
    by (simp add: store_inv_def ids_sequential_def)
  have dist: "distinct (map point_id (points col))"
    by (simp only: ids distinct_upto)
  have pos: "\<forall>p \<in> set (points col). 0 < point_id p"
  proof
    fix p assume "p \<in> set (points col)"
    then have "point_id p \<in> set (map point_id (points col))" by simp
    then have "point_id p \<in> {1 .. int (length (points col))}"
      by (simp only: ids set_upto)
    then show "0 < point_id p" by simp
  qed
  have ins: "length (points colp) < length (points col) \<and>
      points col ! length (points colp) =
        \<lparr>point_id = int (length (points colp)) + 1, vector = v,
         payload = [(''text'', note_text)]\<rparr>"
    if split: "calls = pre @ Add note_text # post"
      and before: "run env pre get_qdrant_client QDRANT_COLLECTION_NAME = Some colp"
      and emb: "get_embedding env note_text = Inr v"
    for pre note_text post colp v
  proof -
    let ?cp = "run env pre get_qdrant_client"
    let ?new = "\<lparr>point_id = int (length (points colp)) + 1, vector = v,
                 payload = [(''text'', note_text)]\<rparr>"
    let ?cp' = "?cp(QDRANT_COLLECTION_NAME \<mapsto> colp\<lparr>points := points colp @ [?new]\<rparr>)"
    have inv: "store_inv ?cp" by (rule store_inv_reachable)
    with before have seq: "ids_sequential (points colp)"
      by (simp add: store_inv_def)
    have added: "exec env (Add note_text) ?cp = ?cp'"
      by (simp add: add_note_sequential [where c = ?cp, OF before emb seq])
    have inv': "store_inv ?cp'"
      using store_inv_exec [OF inv, of env "Add note_text"] by (simp only: added)
    have look: "?cp' QDRANT_COLLECTION_NAME = Some (colp\<lparr>points := points colp @ [?new]\<rparr>)"
      by simp
    have "\<exists>col' rest. run env post ?cp' QDRANT_COLLECTION_NAME = Some col' \<and>
            points col' = points (colp\<lparr>points := points colp @ [?new]\<rparr>) @ rest"
      using inv' look by (rule run_extends)
    then obtain col' rest
      where fin: "run env post ?cp' QDRANT_COLLECTION_NAME = Some col'"
        and pts: "points col' = points (colp\<lparr>points := points colp @ [?new]\<rparr>) @ rest"
      by blast
    have "run env calls get_qdrant_client = run env post ?cp'"
      by (simp only: split run_append run_Cons added)
    with assms fin have "col' = col" by simp
    with pts show ?thesis by (simp add: nth_append)
  qed
  from ids dist pos ins show ?thesis by blast
qed

theorem stored_ids_one_to_n_witness:
  "map_option (map point_id \<circ> points)
     (run demo_env [Assure, Add ''ab'', Add ''hello''] get_qdrant_client QDRANT_COLLECTION_NAME)
     = Some [1, 2] \<and>
   [1, 2] = [1 .. (2::int)] \<and> distinct [1, 2::int] \<and>
   map_option (\<lambda>col. points col ! 1)
     (run demo_env [Assure, Add ''ab'', Add ''hello''] get_qdrant_client QDRANT_COLLECTION_NAME)
     = Some \<lparr>point_id = 2, vector = 5, payload = [(''text'', ''hello'')]\<rparr>"
proof -
  let ?p1 = "\<lparr>point_id = 1, vector = 2::int, payload = [(''text'', ''ab'')]\<rparr>"
  let ?p2 = "\<lparr>point_id = 2, vector = 5::int, payload = [(''text'', ''hello'')]\<rparr>"
  let ?cfg = "\<lparr>vp_size = 3072, vp_distance = COSINE\<rparr>"
  have fin: "run demo_env [Assure, Add ''ab'', Add ''hello''] get_qdrant_client
          QDRANT_COLLECTION_NAME = Some \<lparr>config = ?cfg, points = [?p1, ?p2]\<rparr>"
    by (simp add: eval_defs)
  have pre: "run demo_env [Assure, Add ''ab''] get_qdrant_client
          QDRANT_COLLECTION_NAME = Some \<lparr>config = ?cfg, points = [?p1]\<rparr>"
    by (simp add: eval_defs)
  note all = stored_ids_one_to_n [OF fin]
  from all have ids: "[1, 2] = [1 .. (2::int)]" by simp
  have "[Assure, Add ''ab'', Add ''hello''] = [Assure, Add ''ab''] @ Add ''hello'' # [] \<and>
        run demo_env [Assure, Add ''ab''] get_qdrant_client QDRANT_COLLECTION_NAME =
          Some \<lparr>config = ?cfg, points = [?p1]\<rparr> \<and>
        get_embedding demo_env ''hello'' = Inr 5"
    using pre by (simp add: demo_embedding)
  from all [THEN conjunct2, THEN conjunct2, THEN conjunct2, rule_format, OF this]
  have "[?p1, ?p2] ! 1 = ?p2" by simp
  with ids show ?thesis
    by (simp add: fin)
qed

text \<open>
  C4. \<open>add_note_to_db\<close> hands on, unmodified, the error of the count, the error
  that \<open>embeddings.create\<close> raises and the \<open>IndexError\<close> of an empty answer, and
  leaves the store as it found it: when the embedding request raises, \<open>upsert\<close> is
  not called. Whenever the call raises, the store is unchanged and the error is one of
  these; whenever it returns, exactly one point has been written.

  The same holds with any client in place of the modelled one. Once the count has
  succeeded and the embedding is there, the outcome of \<open>add_note_to_db\<close> is the outcome
  of the one \<open>upsert\<close> call, error and store alike: an error of the write is handed
  on unmodified, and nothing is written besides or rolled back. So with a client
  whose failed write leaves the store unchanged (the single atomic insert of the
  spec), a call that raises leaves the store unchanged.
\<close>

theorem add_note_failure_atomic:
  "(add_note_count c = Inl e \<longrightarrow> add_note_to_db env note_text c = (Inl e, c)) \<and>
   (add_note_count c = Inr n \<and> embeddings_create env [note_text] = Inl e \<longrightarrow>
      add_note_to_db env note_text c = (Inl e, c)) \<and>
   (add_note_count c = Inr n \<and> get_embedding env note_text = Inl e \<longrightarrow>
      add_note_to_db env note_text c = (Inl e, c)) \<and>
   (fst (add_note_to_db env note_text c) = Inl e \<longrightarrow>
      snd (add_note_to_db env note_text c) = c \<and>
      (add_note_count c = Inl e \<or> embeddings_create env [note_text] = Inl e \<or>
       (embeddings_create env [note_text] = Inr [] \<and> e = IndexError))) \<and>
   (fst (add_note_to_db env note_text c) = Inr () \<longrightarrow>
      (\<exists>col v. c QDRANT_COLLECTION_NAME = Some col \<and> get_embedding env note_text = Inr v \<and>
         snd (add_note_to_db env note_text c) =
           c(QDRANT_COLLECTION_NAME \<mapsto> col\<lparr>points :=
               upsert_point \<lparr>point_id = int (length (points col)) + 1, vector = v,
                             payload = [(''text'', note_text)]\<rparr> (points col)\<rparr>))) \<and>
   add_note_to_db env note_text c = add_note_to_db_on count upsert env note_text c \<and>
   (count_op QDRANT_COLLECTION_NAME st = Inl e \<longrightarrow>
      add_note_to_db_on count_op upsert_op env note_text st = (Inl e, st)) \<and>
   (count_op QDRANT_COLLECTION_NAME st = Inr n \<and> embeddings_create env [note_text] = Inl e \<longrightarrow>
      add_note_to_db_on count_op upsert_op env note_text st = (Inl e, st)) \<and>
   (count_op QDRANT_COLLECTION_NAME st = Inr n \<and> get_embedding env note_text = Inr v \<longrightarrow>
      add_note_to_db_on count_op upsert_op env note_text st =
        upsert_op QDRANT_COLLECTION_NAME
          [\<lparr>point_id = n + 1, vector = v, payload = [(''text'', note_text)]\<rparr>] st) \<and>
   ((\<forall>ps e' st'. upsert_op QDRANT_COLLECTION_NAME ps st = (Inl e', st') \<longrightarrow> st' = st) \<and>
    fst (add_note_to_db_on count_op upsert_op env note_text st) = Inl e \<longrightarrow>
      snd (add_note_to_db_on count_op upsert_op env note_text st) = st)"
proof -
  have model: "(add_note_count c = Inl e \<longrightarrow> add_note_to_db env note_text c = (Inl e, c)) \<and>
   (add_note_count c = Inr n \<and> embeddings_create env [note_text] = Inl e \<longrightarrow>
      add_note_to_db env note_text c = (Inl e, c)) \<and>
   (add_note_count c = Inr n \<and> get_embedding env note_text = Inl e \<longrightarrow>
      add_note_to_db env note_text c = (Inl e, c)) \<and>
   (fst (add_note_to_db env note_text c) = Inl e \<longrightarrow>
      snd (add_note_to_db env note_text c) = c \<and>
      (add_note_count c = Inl e \<or> embeddings_create env [note_text] = Inl e \<or>
       (embeddings_create env [note_text] = Inr [] \<and> e = IndexError))) \<and>
   (fst (add_note_to_db env note_text c) = Inr () \<longrightarrow>
      (\<exists>col v. c QDRANT_COLLECTION_NAME = Some col \<and> get_embedding env note_text = Inr v \<and>
         snd (add_note_to_db env note_text c) =
           c(QDRANT_COLLECTION_NAME \<mapsto> col\<lparr>points :=
               upsert_point \<lparr>point_id = int (length (points col)) + 1, vector = v,
                             payload = [(''text'', note_text)]\<rparr> (points col)\<rparr>)))"
  proof (cases "c QDRANT_COLLECTION_NAME")
    case None
    then show ?thesis
      by (simp add: add_note_absent add_note_count_def count_def)
  next
    case (Some col)
    show ?thesis
    proof (cases "get_embedding env note_text")
      case (Inl e')
      then have "embeddings_create env [note_text] = Inl e' \<or>
          (embeddings_create env [note_text] = Inr [] \<and> e' = IndexError)"
        by (simp add: get_embedding_Inl)
      moreover have "embeddings_create env [note_text] = Inl e \<longrightarrow> e' = e"
        using Inl by (auto simp: get_embedding_def)
      ultimately show ?thesis
        using Some Inl by (auto simp: add_note_embed_fails add_note_count_def count_def)
    next
      case (Inr v)
      then have "embeddings_create env [note_text] \<noteq> Inl e"
        by (auto simp: get_embedding_def)
      with Some Inr show ?thesis
        by (simp add: add_note_present add_note_count_def count_def)
    qed
  qed
  have g1: "add_note_to_db_on count_op upsert_op env note_text st = (Inl e, st)"
    if "count_op QDRANT_COLLECTION_NAME st = Inl e"
    using that by (simp add: add_note_to_db_on_def)
  have g2: "add_note_to_db_on count_op upsert_op env note_text st = (Inl e, st)"
    if "count_op QDRANT_COLLECTION_NAME st = Inr n \<and> embeddings_create env [note_text] = Inl e"
    using that by (simp add: add_note_to_db_on_def get_embedding_def)
  have g3: "add_note_to_db_on count_op upsert_op env note_text st =
        upsert_op QDRANT_COLLECTION_NAME
          [\<lparr>point_id = n + 1, vector = v, payload = [(''text'', note_text)]\<rparr>] st"
    if "count_op QDRANT_COLLECTION_NAME st = Inr n \<and> get_embedding env note_text = Inr v"
    using that by (simp add: add_note_to_db_on_def)
  have g4: "snd (add_note_to_db_on count_op upsert_op env note_text st) = st"
    if "(\<forall>ps e' st'. upsert_op QDRANT_COLLECTION_NAME ps st = (Inl e', st') \<longrightarrow> st' = st) \<and>
        fst (add_note_to_db_on count_op upsert_op env note_text st) = Inl e"
  proof -
    from that have atomic:
      "\<And>ps e' st'. upsert_op QDRANT_COLLECTION_NAME ps st = (Inl e', st') \<Longrightarrow> st' = st"
      and failed: "fst (add_note_to_db_on count_op upsert_op env note_text st) = Inl e"
      by blast+
    show ?thesis
    proof (cases "count_op QDRANT_COLLECTION_NAME st")
      case (Inl e0)
      then show ?thesis by (simp add: add_note_to_db_on_def)
    next
      case cnt: (Inr m)
      show ?thesis
      proof (cases "get_embedding env note_text")
        case (Inl e0)
        with cnt show ?thesis by (simp add: add_note_to_db_on_def)
      next
        case (Inr w)
        let ?p = "\<lparr>point_id = m + 1, vector = w, payload = [(''text'', note_text)]\<rparr>"
        have eq: "add_note_to_db_on count_op upsert_op env note_text st =
            upsert_op QDRANT_COLLECTION_NAME [?p] st"
          using cnt Inr by (simp add: add_note_to_db_on_def)
        obtain r st' where u: "upsert_op QDRANT_COLLECTION_NAME [?p] st = (r, st')"
          by (cases "upsert_op QDRANT_COLLECTION_NAME [?p] st")
        with failed eq have "r = Inl e" by simp
        with u have "st' = st" by (auto dest: atomic)
        with eq u show ?thesis by simp
      qed
    qed
  qed
  from model add_note_to_db_on_model [of env note_text c] g1 g2 g3 g4
  show ?thesis by blast
qed


theorem add_note_failure_atomic_witness:
  "add_note_count (get_qdrant_client :: int QdrantClient) = Inl (CollectionNotFound ''notes'') \<and>
   add_note_to_db demo_env ''x'' get_qdrant_client =
     (Inl (CollectionNotFound ''notes''), get_qdrant_client) \<and>
   add_note_count (run demo_env [Assure, Add ''ab''] get_qdrant_client) = Inr 1 \<and>
   embeddings_create down_env [''x''] = Inl (ProviderError ''unavailable'') \<and>
   get_embedding down_env ''x'' = Inl (ProviderError ''unavailable'') \<and>
   add_note_to_db down_env ''x'' (run demo_env [Assure, Add ''ab''] get_qdrant_client) =
     (Inl (ProviderError ''unavailable''), run demo_env [Assure, Add ''ab''] get_qdrant_client) \<and>
   fst (add_note_to_db demo_env ''x'' (run demo_env [Assure, Add ''ab''] get_qdrant_client)) = Inr () \<and>
   (\<exists>col v. run demo_env [Assure, Add ''ab''] get_qdrant_client QDRANT_COLLECTION_NAME = Some col \<and>
      get_embedding demo_env ''x'' = Inr v \<and>
      snd (add_note_to_db demo_env ''x'' (run demo_env [Assure, Add ''ab''] get_qdrant_client)) =
        (run demo_env [Assure, Add ''ab''] get_qdrant_client)
          (QDRANT_COLLECTION_NAME \<mapsto> col\<lparr>points :=
             upsert_point \<lparr>point_id = int (length (points col)) + 1, vector = v,
                           payload = [(''text'', ''x'')]\<rparr> (points col)\<rparr>)) \<and>
   add_note_to_db_on count upsert down_env ''x'' (get_qdrant_client :: int QdrantClient) =
     (Inl (CollectionNotFound ''notes''), get_qdrant_client) \<and>
   add_note_to_db_on count refusing_upsert down_env ''x''
       (run demo_env [Assure, Add ''ab''] get_qdrant_client) =
     (Inl (ProviderError ''unavailable''), run demo_env [Assure, Add ''ab''] get_qdrant_client) \<and>
   add_note_to_db_on count refusing_upsert demo_env ''x''
       (run demo_env [Assure, Add ''ab''] get_qdrant_client) =
     (Inl (ProviderError ''index write failed''),
      run demo_env [Assure, Add ''ab''] get_qdrant_client) \<and>
   snd (add_note_to_db_on count refusing_upsert demo_env ''x''
          (run demo_env [Assure, Add ''ab''] get_qdrant_client)) =
     run demo_env [Assure, Add ''ab''] get_qdrant_client"
proof -
  let ?c0 = "get_qdrant_client :: int QdrantClient"
  let ?c1 = "run demo_env [Assure, Add ''ab''] get_qdrant_client"
  let ?nf = "CollectionNotFound ''notes''"
  let ?pe = "ProviderError ''unavailable''"
  let ?wf = "ProviderError ''index write failed''"
  let ?ru = "refusing_upsert ::
      string \<Rightarrow> int PointStruct list \<Rightarrow> int QdrantClient \<Rightarrow> (error + unit) \<times> int QdrantClient"
  have h1: "add_note_count ?c0 = Inl ?nf"
    by (simp add: eval_defs)
  have g1: "count QDRANT_COLLECTION_NAME ?c0 = Inl ?nf"
    by (simp add: eval_defs)
  note t0 = add_note_failure_atomic [where c = ?c0 and e = ?nf and env = demo_env
      and note_text = "''x''" and n = 0 and count_op = count and upsert_op = upsert and st = ?c0]
  from t0 h1 have r1: "add_note_to_db demo_env ''x'' ?c0 = (Inl ?nf, ?c0)"
    by blast
  from add_note_failure_atomic [where c = ?c0 and e = ?nf and env = down_env
      and note_text = "''x''" and n = 0 and count_op = count and upsert_op = upsert and st = ?c0] g1
  have r1g: "add_note_to_db_on count upsert down_env ''x'' ?c0 = (Inl ?nf, ?c0)"
    by blast
  have h2: "add_note_count ?c1 = Inr 1"
    by (simp add: eval_defs)
  have g2: "count QDRANT_COLLECTION_NAME ?c1 = Inr 1"
    by (simp add: eval_defs)
  have p2: "embeddings_create down_env [''x''] = Inl ?pe"
    by (simp add: down_env_def)
  have e2: "get_embedding down_env ''x'' = Inl ?pe"
    by (simp add: down_embedding)
  note t2 = add_note_failure_atomic [where c = ?c1 and e = ?pe and env = down_env
      and note_text = "''x''" and n = 1 and count_op = count and upsert_op = ?ru and st = ?c1]
  from t2 h2 p2 have r2: "add_note_to_db down_env ''x'' ?c1 = (Inl ?pe, ?c1)"
    by blast
  from t2 g2 p2 have r2g: "add_note_to_db_on count ?ru down_env ''x'' ?c1 = (Inl ?pe, ?c1)"
    by blast
  have h4: "fst (add_note_to_db demo_env ''x'' ?c1) = Inr ()"
    by (simp add: eval_defs)
  have e4: "get_embedding demo_env ''x'' = Inr 1"
    by (simp add: demo_embedding)
  have atomic: "\<forall>ps e' st'. ?ru QDRANT_COLLECTION_NAME ps ?c1 = (Inl e', st') \<longrightarrow> st' = ?c1"
    by (simp add: refusing_upsert_def)
  note t4 = add_note_failure_atomic [where c = ?c1 and e = ?wf and env = demo_env
      and note_text = "''x''" and n = 1 and v = 1 and count_op = count and upsert_op = ?ru
      and st = ?c1]
  from t4 h4
  have r4: "\<exists>col v. ?c1 QDRANT_COLLECTION_NAME = Some col \<and>
      get_embedding demo_env ''x'' = Inr v \<and>
      snd (add_note_to_db demo_env ''x'' ?c1) =
        ?c1(QDRANT_COLLECTION_NAME \<mapsto> col\<lparr>points :=
             upsert_point \<lparr>point_id = int (length (points col)) + 1, vector = v,
                           payload = [(''text'', ''x'')]\<rparr> (points col)\<rparr>)"
    by blast
  from t4 g2 e4
  have "add_note_to_db_on count ?ru demo_env ''x'' ?c1 =
      ?ru QDRANT_COLLECTION_NAME
        [\<lparr>point_id = 1 + 1, vector = 1, payload = [(''text'', ''x'')]\<rparr>] ?c1"
    by blast
  then have r5: "add_note_to_db_on count ?ru demo_env ''x'' ?c1 = (Inl ?wf, ?c1)"
    by (simp add: refusing_upsert_def)
  then have "fst (add_note_to_db_on count ?ru demo_env ''x'' ?c1) = Inl ?wf"
    by simp
  with t4 atomic have r6: "snd (add_note_to_db_on count ?ru demo_env ''x'' ?c1) = ?c1"
    by blast
  from h1 r1 h2 p2 e2 r2 h4 r4 r1g r2g r5 r6 show ?thesis
    by blast
qed


text \<open>
  C5. Whenever \<open>list_notes_from_db()\<close> returns, it returns at most 12 items, every
  one with score \<open>None\<close>, and their texts are those of the first 12 points of the
  index's enumeration, in that order. It does return in every state reached by a
  sequence of calls in which the collection exists, whatever permutation of the
  stored points the enumeration is.
\<close>

theorem browse_up_to_twelve:
  "(list_notes_from_db env None c = Inr r \<longrightarrow>
      length r \<le> 12 \<and> (\<forall>x \<in> set r. res_score x = None) \<and>
      (\<exists>col. c QDRANT_COLLECTION_NAME = Some col \<and>
         map (\<lambda>x. Some (res_text x)) r =
           map (\<lambda>p. map_of (payload p) ''text'')
             (take 12 (scroll_order env (points col))))) \<and>
   (c = run env' calls get_qdrant_client \<and> c QDRANT_COLLECTION_NAME = Some col' \<and>
    mset (scroll_order env (points col')) = mset (points col') \<longrightarrow>
      (\<exists>r'. list_notes_from_db env None c = Inr r'))"
proof -
  have returns: "\<exists>r'. list_notes_from_db env None c = Inr r'"
    if "c = run env' calls get_qdrant_client" and "c QDRANT_COLLECTION_NAME = Some col'"
      and "mset (scroll_order env (points col')) = mset (points col')"
  proof -
    from that(1) have "store_inv c" by (simp add: store_inv_reachable)
    from browse_notes_returns [OF this that(2,3)] show ?thesis
      by (simp add: list_notes_from_db_def)
  qed
  have result: "length r \<le> 12 \<and> (\<forall>x \<in> set r. res_score x = None) \<and>
      (\<exists>col. c QDRANT_COLLECTION_NAME = Some col \<and>
         map (\<lambda>x. Some (res_text x)) r =
           map (\<lambda>p. map_of (payload p) ''text'')
             (take 12 (scroll_order env (points col))))"
    if "list_notes_from_db env None c = Inr r"
    using that browse_notes_Inr [of env c r] by (simp add: list_notes_from_db_def)
  from returns result show ?thesis by blast
qed


theorem browse_up_to_twelve_witness:
  "list_notes_from_db demo_env None (run demo_env [Assure, Add ''ab'', Add ''hello''] get_qdrant_client)
     = Inr [\<lparr>res_text = ''ab'', res_score = None\<rparr>, \<lparr>res_text = ''hello'', res_score = None\<rparr>] \<and>
   length [\<lparr>res_text = ''ab'', res_score = None :: int option\<rparr>,
           \<lparr>res_text = ''hello'', res_score = None\<rparr>] \<le> 12 \<and>
   (\<exists>r'. list_notes_from_db demo_env None
            (run demo_env [Assure, Add ''ab'', Add ''hello''] get_qdrant_client) = Inr r')"
proof -
  let ?c = "run demo_env [Assure, Add ''ab'', Add ''hello''] get_qdrant_client"
  let ?r = "[\<lparr>res_text = ''ab'', res_score = None :: int option\<rparr>,
             \<lparr>res_text = ''hello'', res_score = None\<rparr>]"
  let ?col = "\<lparr>config = \<lparr>vp_size = 3072, vp_distance = COSINE\<rparr>,
      points = [\<lparr>point_id = 1, vector = 2::int, payload = [(''text'', ''ab'')]\<rparr>,
                \<lparr>point_id = 2, vector = 5, payload = [(''text'', ''hello'')]\<rparr>]\<rparr>"
  have look: "?c QDRANT_COLLECTION_NAME = Some ?col"
    by (simp add: eval_defs)
  have ev: "list_notes_from_db demo_env None ?c = Inr ?r"
    by (simp add: list_eval_defs demo_env_sel look)
  have perm: "mset (scroll_order demo_env (points ?col)) = mset (points ?col)"
    by (simp add: demo_env_sel)
  note t = browse_up_to_twelve [where env = demo_env and c = ?c and r = ?r
      and env' = demo_env and calls = "[Assure, Add ''ab'', Add ''hello'']" and col' = ?col]
  from t ev have "length ?r \<le> 12" by blast
  moreover from t look perm
  have "\<exists>r'. list_notes_from_db demo_env None ?c = Inr r'" by blast
  ultimately show ?thesis using ev by blast
qed

text \<open>
  C2. For a non-empty query, whenever \<open>list_notes_from_db(query)\<close> returns, it
  returns at most 10 items; each carries the text of a stored point and, as score,
  the similarity of that point's vector to the embedding of the query; and the scores
  are in descending order. It does return in every state reached by a sequence of
  calls in which the collection exists, provided the embedding request succeeds.
\<close>

theorem search_at_most_ten_ranked:
  assumes "query \<noteq> []"
  shows "(list_notes_from_db env (Some query) c = Inr r \<longrightarrow>
           (\<exists>qv col. get_embedding env query = Inr qv \<and>
              c QDRANT_COLLECTION_NAME = Some col \<and>
              length r \<le> 10 \<and>
              (\<forall>x \<in> set r. \<exists>p \<in> set (points col).
                 map_of (payload p) ''text'' = Some (res_text x) \<and>
                 res_score x = Some (similarity env qv (vector p))) \<and>
              (\<exists>ss. map res_score r = map Some ss \<and> sorted_wrt (\<lambda>a b. b \<le> a) ss))) \<and>
         (c = run env' calls get_qdrant_client \<and> c QDRANT_COLLECTION_NAME = Some col' \<and>
          get_embedding env query = Inr qv' \<longrightarrow>
            (\<exists>r'. list_notes_from_db env (Some query) c = Inr r'))"
proof -
  have eq: "list_notes_from_db env (Some query) c = search_notes env query c"
    using assms by (simp add: list_notes_from_db_def)
  have returns: "\<exists>r'. list_notes_from_db env (Some query) c = Inr r'"
    if "c = run env' calls get_qdrant_client" and "c QDRANT_COLLECTION_NAME = Some col'"
      and "get_embedding env query = Inr qv'"
  proof -
    from that(1) have "store_inv c" by (simp add: store_inv_reachable)
    from search_notes_returns [OF this that(2,3)] show ?thesis
      by (simp only: eq)
  qed
  have result: "\<exists>qv col. get_embedding env query = Inr qv \<and>
              c QDRANT_COLLECTION_NAME = Some col \<and>
              length r \<le> 10 \<and>
              (\<forall>x \<in> set r. \<exists>p \<in> set (points col).
                 map_of (payload p) ''text'' = Some (res_text x) \<and>
                 res_score x = Some (similarity env qv (vector p))) \<and>
              (\<exists>ss. map res_score r = map Some ss \<and> sorted_wrt (\<lambda>a b. b \<le> a) ss)"
    if "list_notes_from_db env (Some query) c = Inr r"
    using that search_notes_Inr [of env query c r] by (simp only: eq)
  from returns result show ?thesis by blast
qed

theorem search_at_most_ten_ranked_witness:
  "''abcd'' \<noteq> [] \<and>
   list_notes_from_db demo_env (Some ''abcd'')
     (run demo_env [Assure, Add ''ab'', Add ''hello'', Add ''x''] get_qdrant_client)
     = Inr [\<lparr>res_text = ''hello'', res_score = Some (- 1)\<rparr>,
            \<lparr>res_text = ''ab'', res_score = Some (- 2)\<rparr>,
            \<lparr>res_text = ''x'', res_score = Some (- 3)\<rparr>] \<and>
   (\<exists>ss. map res_score [\<lparr>res_text = ''hello'', res_score = Some (- 1)\<rparr>,
            \<lparr>res_text = ''ab'', res_score = Some (- 2)\<rparr>,
            \<lparr>res_text = ''x'', res_score = Some (- 3 :: int)\<rparr>] = map Some ss \<and>
         sorted_wrt (\<lambda>a b. b \<le> a) ss) \<and>
   (\<exists>r'. list_notes_from_db demo_env (Some ''abcd'')
     (run demo_env [Assure, Add ''ab'', Add ''hello'', Add ''x''] get_qdrant_client) = Inr r')"
proof -
  let ?calls = "[Assure, Add ''ab'', Add ''hello'', Add ''x'']"
  let ?c = "run demo_env ?calls get_qdrant_client"
  let ?r = "[\<lparr>res_text = ''hello'', res_score = Some (- 1)\<rparr>,
            \<lparr>res_text = ''ab'', res_score = Some (- 2)\<rparr>,
            \<lparr>res_text = ''x'', res_score = Some (- 3 :: int)\<rparr>]"
  let ?col = "\<lparr>config = \<lparr>vp_size = 3072, vp_distance = COSINE\<rparr>,
      points = [\<lparr>point_id = 1, vector = 2::int, payload = [(''text'', ''ab'')]\<rparr>,
                \<lparr>point_id = 2, vector = 5, payload = [(''text'', ''hello'')]\<rparr>,
                \<lparr>point_id = 3, vector = 1, payload = [(''text'', ''x'')]\<rparr>]\<rparr>"
  have ne: "''abcd'' \<noteq> []" by simp
  have look: "?c QDRANT_COLLECTION_NAME = Some ?col"
    by (simp add: eval_defs)
  have emb: "get_embedding demo_env ''abcd'' = Inr 4"
    by (simp add: demo_embedding)
  have ev: "list_notes_from_db demo_env (Some ''abcd'') ?c = Inr ?r"
    by (simp add: list_eval_defs demo_env_sel look emb sort_key_def)
  note t = search_at_most_ten_ranked [OF ne, where env = demo_env and c = ?c and r = ?r
      and env' = demo_env and calls = ?calls and col' = ?col and qv' = 4]
  from t ev have "\<exists>ss. map res_score ?r = map Some ss \<and> sorted_wrt (\<lambda>a b. b \<le> a) ss"
    by blast
  moreover from t look emb
  have "\<exists>r'. list_notes_from_db demo_env (Some ''abcd'') ?c = Inr r'" by blast
  ultimately show ?thesis using ne ev by blast
qed

text \<open>
  C7. On the collection that \<open>assure_db_collection_exists\<close> has just created on a
  new client, and on any client whose collection holds no point, a search with a
  non-empty query whose embedding request succeeds returns the empty list.
\<close>

theorem search_empty_index:
  assumes "query \<noteq> []" and "get_embedding env query = Inr qv"
  shows "list_notes_from_db env (Some query)
           (snd (assure_db_collection_exists get_qdrant_client)) = Inr [] \<and>
         (c QDRANT_COLLECTION_NAME = Some col \<and> points col = [] \<longrightarrow>
            list_notes_from_db env (Some query) c = Inr [])"
proof -
  have "list_notes_from_db env (Some query) c = Inr []"
    if "c QDRANT_COLLECTION_NAME = Some col" and "points col = []" for c :: "'a QdrantClient" and col
    using assms that by (simp add: list_notes_from_db_def search_notes_def search_def)
  moreover have "snd (assure_db_collection_exists (get_qdrant_client :: 'a QdrantClient))
      QDRANT_COLLECTION_NAME = Some \<lparr>config = \<lparr>vp_size = 3072, vp_distance = COSINE\<rparr>, points = []\<rparr>"
    by (simp add: assure_absent get_qdrant_client_def)
  ultimately show ?thesis by simp
qed

theorem search_empty_index_witness:
  "''anything'' \<noteq> [] \<and> get_embedding demo_env ''anything'' = Inr 8 \<and>
   list_notes_from_db demo_env (Some ''anything'')
     (snd (assure_db_collection_exists get_qdrant_client)) = Inr [] \<and>
   list_notes_from_db demo_env (Some ''anything'') (run demo_env [Assure] get_qdrant_client) = Inr []"
proof -
  let ?c = "run demo_env [Assure] get_qdrant_client"
  let ?col = "\<lparr>config = \<lparr>vp_size = 3072, vp_distance = COSINE\<rparr>,
      points = ([] :: int PointStruct list)\<rparr>"
  have ne: "''anything'' \<noteq> []" by simp
  have emb: "get_embedding demo_env ''anything'' = Inr 8"
    by (simp add: demo_embedding)
  have look: "?c QDRANT_COLLECTION_NAME = Some ?col \<and> points ?col = []"
    by (simp add: eval_defs)
  from search_empty_index [OF ne emb, where c = ?c and col = ?col] look ne emb
  show ?thesis by blast
qed


text \<open>
  C10. \<open>list_notes_from_db("")\<close> is \<open>list_notes_from_db(None)\<close>: the browse
  branch. Its outcome is the same whatever the embedding endpoint would answer, so the
  endpoint is not consulted. When it returns there are at most 12 items, all with
  score \<open>None\<close>; when it raises, the error is that of the scroll or of a payload
  without \<open>text\<close>, never one about the query. It returns in every state reached by
  a sequence of calls in which the collection exists.
\<close>

theorem empty_query_is_browse:
  "list_notes_from_db env (Some []) c = list_notes_from_db env None c \<and>
   list_notes_from_db (env\<lparr>embeddings_create := f\<rparr>) (Some []) c =
     list_notes_from_db env (Some []) c \<and>
   (list_notes_from_db env (Some []) c = Inr r \<longrightarrow>
      length r \<le> 12 \<and> (\<forall>x \<in> set r. res_score x = None)) \<and>
   (list_notes_from_db env (Some []) c = Inl e \<longrightarrow>
      e = CollectionNotFound QDRANT_COLLECTION_NAME \<or> e = KeyError ''text'') \<and>
   (c = run env' calls get_qdrant_client \<and> c QDRANT_COLLECTION_NAME = Some col \<and>
    mset (scroll_order env (points col)) = mset (points col) \<longrightarrow>
      (\<exists>r'. list_notes_from_db env (Some []) c = Inr r'))"
proof -
  have eq: "list_notes_from_db env (Some []) c = browse_notes env c"
    by (simp add: list_notes_from_db_def)
  have a: "list_notes_from_db env (Some []) c = list_notes_from_db env None c"
    by (simp add: list_notes_from_db_def)
  have b: "list_notes_from_db (env\<lparr>embeddings_create := f\<rparr>) (Some []) c =
     list_notes_from_db env (Some []) c"
    by (simp add: list_notes_from_db_def browse_notes_def)
  have c: "length r \<le> 12 \<and> (\<forall>x \<in> set r. res_score x = None)"
    if "list_notes_from_db env (Some []) c = Inr r"
  proof -
    from that have "browse_notes env c = Inr r" by (simp only: eq)
    from browse_notes_Inr [OF this] show ?thesis by blast
  qed
  have d: "e = CollectionNotFound QDRANT_COLLECTION_NAME \<or> e = KeyError ''text''"
    if "list_notes_from_db env (Some []) c = Inl e"
    using that unfolding eq
    by (auto simp: browse_notes_def scroll_def browse_loop_eq split: option.splits if_splits)
  have e: "\<exists>r'. list_notes_from_db env (Some []) c = Inr r'"
    if "c = run env' calls get_qdrant_client" and "c QDRANT_COLLECTION_NAME = Some col"
      and "mset (scroll_order env (points col)) = mset (points col)"
  proof -
    from that(1) have "store_inv c" by (simp add: store_inv_reachable)
    from browse_notes_returns [OF this that(2,3)] show ?thesis
      by (simp only: eq)
  qed
  from a b c d e show ?thesis by blast
qed


theorem empty_query_is_browse_witness:
  "list_notes_from_db down_env (Some '''')
     (run demo_env [Assure, Add ''ab'', Add ''hello''] get_qdrant_client)
     = Inr [\<lparr>res_text = ''ab'', res_score = None\<rparr>, \<lparr>res_text = ''hello'', res_score = None\<rparr>] \<and>
   length [\<lparr>res_text = ''ab'', res_score = None :: int option\<rparr>,
           \<lparr>res_text = ''hello'', res_score = None\<rparr>] \<le> 12 \<and>
   list_notes_from_db down_env (Some '''') (get_qdrant_client :: int QdrantClient)
     = Inl (CollectionNotFound ''notes'') \<and>
   (\<exists>r'. list_notes_from_db down_env (Some '''')
            (run demo_env [Assure, Add ''ab'', Add ''hello''] get_qdrant_client) = Inr r')"
proof -
  let ?c = "run demo_env [Assure, Add ''ab'', Add ''hello''] get_qdrant_client"
  let ?r = "[\<lparr>res_text = ''ab'', res_score = None :: int option\<rparr>,
             \<lparr>res_text = ''hello'', res_score = None\<rparr>]"
  let ?col = "\<lparr>config = \<lparr>vp_size = 3072, vp_distance = COSINE\<rparr>,
      points = [\<lparr>point_id = 1, vector = 2::int, payload = [(''text'', ''ab'')]\<rparr>,
                \<lparr>point_id = 2, vector = 5, payload = [(''text'', ''hello'')]\<rparr>]\<rparr>"
  let ?nf = "CollectionNotFound ''notes''"
  have look: "?c QDRANT_COLLECTION_NAME = Some ?col"
    by (simp add: eval_defs)
  have ev: "list_notes_from_db down_env (Some '''') ?c = Inr ?r"
    by (simp add: list_eval_defs demo_env_sel look)
  have ev0: "list_notes_from_db down_env (Some '''') (get_qdrant_client :: int QdrantClient) = Inl ?nf"
    by (simp add: list_eval_defs eval_defs)
  have perm: "mset (scroll_order down_env (points ?col)) = mset (points ?col)"
    by (simp add: demo_env_sel)
  note t = empty_query_is_browse [where env = down_env and c = ?c and r = ?r
      and env' = demo_env and calls = "[Assure, Add ''ab'', Add ''hello'']" and col = ?col]
  from t ev have "length ?r \<le> 12" by blast
  moreover from t look perm
  have "\<exists>r'. list_notes_from_db down_env (Some '''') ?c = Inr r'" by blast
  moreover from empty_query_is_browse [where env = down_env
      and c = "get_qdrant_client :: int QdrantClient" and e = ?nf] ev0
  have "?nf = CollectionNotFound QDRANT_COLLECTION_NAME \<or> ?nf = KeyError ''text''" by blast
  ultimately show ?thesis using ev ev0 by blast
qed


text \<open>
  C6, as the code has it. The browse takes no limit argument; it scrolls with the
  fixed limit 12. In every state reached by a sequence of calls in which the
  collection holds fewer than 12 notes, after a successful \<open>add_note_to_db\<close> the
  browse returns and contains an item with the added text and score \<open>None\<close>,
  whatever permutation of the stored points the enumeration is.
\<close>

theorem roundtrip_below_limit:
  assumes "c = run env calls get_qdrant_client"
    and "c QDRANT_COLLECTION_NAME = Some col"
    and "length (points col) < 12"
    and "get_embedding env note_text = Inr v"
    and "\<forall>ps. mset (scroll_order env ps) = mset ps"
  shows "fst (add_note_to_db env note_text c) = Inr () \<and>
         (\<exists>r. list_notes_from_db env None (snd (add_note_to_db env note_text c)) = Inr r \<and>
            (\<exists>x \<in> set r. res_text x = note_text \<and> res_score x = None))"
proof -
  from assms(1) have inv: "store_inv c"
    by (simp add: store_inv_reachable)
  from assms(5) have "mset (scroll_order env (points col @ [\<lparr>point_id = int (length (points col)) + 1,
            vector = v, payload = [(''text'', note_text)]\<rparr>])) =
         mset (points col @ [\<lparr>point_id = int (length (points col)) + 1,
            vector = v, payload = [(''text'', note_text)]\<rparr>])"
    by (rule spec)
  from browse_after_add [OF inv assms(2,3,4) this] show ?thesis
    by (simp add: list_notes_from_db_def)
qed

theorem roundtrip_below_limit_witness:
  "length [\<lparr>point_id = 1, vector = 2::int, payload = [(''text'', ''ab'')]\<rparr>] < 12 \<and>
   get_embedding demo_env ''hello world'' = Inr 11 \<and>
   (\<forall>ps. mset (scroll_order demo_env ps) = mset ps) \<and>
   fst (add_note_to_db demo_env ''hello world''
          (run demo_env [Assure, Add ''ab''] get_qdrant_client)) = Inr () \<and>
   (\<exists>r. list_notes_from_db demo_env None
           (snd (add_note_to_db demo_env ''hello world''
                   (run demo_env [Assure, Add ''ab''] get_qdrant_client))) = Inr r \<and>
        (\<exists>x \<in> set r. res_text x = ''hello world'' \<and> res_score x = None))"
proof -
  let ?c = "run demo_env [Assure, Add ''ab''] get_qdrant_client"
  let ?col = "\<lparr>config = \<lparr>vp_size = 3072, vp_distance = COSINE\<rparr>,
      points = [\<lparr>point_id = 1, vector = 2::int, payload = [(''text'', ''ab'')]\<rparr>]\<rparr>"
  have look: "?c QDRANT_COLLECTION_NAME = Some ?col"
    by (simp add: eval_defs)
  have len: "length (points ?col) < 12" by simp
  have emb: "get_embedding demo_env ''hello world'' = Inr 11"
    by (simp add: demo_embedding)
  have perm: "\<forall>ps. mset (scroll_order demo_env ps) = mset ps"
    by (simp add: demo_env_sel)
  from roundtrip_below_limit [OF refl look len emb perm] len emb perm
  show ?thesis by simp
qed

text \<open>
  C6 as stated fails once the store is full: after the twelve notes \<open>n01\<close> to
  \<open>n12\<close>, adding \<open>hello world\<close> succeeds and the store counts 13 notes, yet the
  browse returns the twelve older texts only.
\<close>

theorem roundtrip_counterexample:
  "fst (add_note_to_db demo_env ''hello world'' (run demo_env twelve_notes get_qdrant_client))
     = Inr () \<and>
   count QDRANT_COLLECTION_NAME
     (snd (add_note_to_db demo_env ''hello world'' (run demo_env twelve_notes get_qdrant_client)))
     = Inr 13 \<and>
   map_sum id (map res_text)
     (list_notes_from_db demo_env None
        (snd (add_note_to_db demo_env ''hello world''
                (run demo_env twelve_notes get_qdrant_client))))
     = Inr [''n01'', ''n02'', ''n03'', ''n04'', ''n05'', ''n06'',
            ''n07'', ''n08'', ''n09'', ''n10'', ''n11'', ''n12'']"
proof -
  let ?c = "run demo_env twelve_notes get_qdrant_client"
  let ?cfg = "\<lparr>vp_size = 3072, vp_distance = COSINE\<rparr>"
  let ?ps = "[\<lparr>point_id = 1, vector = 3::int, payload = [(''text'', ''n01'')]\<rparr>,
              \<lparr>point_id = 2, vector = 3, payload = [(''text'', ''n02'')]\<rparr>,
              \<lparr>point_id = 3, vector = 3, payload = [(''text'', ''n03'')]\<rparr>,
              \<lparr>point_id = 4, vector = 3, payload = [(''text'', ''n04'')]\<rparr>,
              \<lparr>point_id = 5, vector = 3, payload = [(''text'', ''n05'')]\<rparr>,
              \<lparr>point_id = 6, vector = 3, payload = [(''text'', ''n06'')]\<rparr>,
              \<lparr>point_id = 7, vector = 3, payload = [(''text'', ''n07'')]\<rparr>,
              \<lparr>point_id = 8, vector = 3, payload = [(''text'', ''n08'')]\<rparr>,
              \<lparr>point_id = 9, vector = 3, payload = [(''text'', ''n09'')]\<rparr>,
              \<lparr>point_id = 10, vector = 3, payload = [(''text'', ''n10'')]\<rparr>,
              \<lparr>point_id = 11, vector = 3, payload = [(''text'', ''n11'')]\<rparr>,
              \<lparr>point_id = 12, vector = 3, payload = [(''text'', ''n12'')]\<rparr>]"
  let ?hw = "\<lparr>point_id = 13, vector = 11::int, payload = [(''text'', ''hello world'')]\<rparr>"
  have look: "?c QDRANT_COLLECTION_NAME = Some \<lparr>config = ?cfg, points = ?ps\<rparr>"
    by (simp add: twelve_notes_def eval_defs)
  have ok: "fst (add_note_to_db demo_env ''hello world'' ?c) = Inr ()"
    by (simp add: add_note_to_db_def add_note_count_def add_note_upsert_def count_def
        upsert_def demo_embedding look)
  have look': "snd (add_note_to_db demo_env ''hello world'' ?c) QDRANT_COLLECTION_NAME =
      Some \<lparr>config = ?cfg, points = ?ps @ [?hw]\<rparr>"
    by (simp add: add_note_to_db_def add_note_count_def add_note_upsert_def count_def
        upsert_def demo_embedding look)
  have cnt: "count QDRANT_COLLECTION_NAME (snd (add_note_to_db demo_env ''hello world'' ?c))
      = Inr 13"
    by (simp add: count_def look')
  have "list_notes_from_db demo_env None (snd (add_note_to_db demo_env ''hello world'' ?c)) =
      Inr [\<lparr>res_text = ''n01'', res_score = None\<rparr>, \<lparr>res_text = ''n02'', res_score = None\<rparr>,
           \<lparr>res_text = ''n03'', res_score = None\<rparr>, \<lparr>res_text = ''n04'', res_score = None\<rparr>,
           \<lparr>res_text = ''n05'', res_score = None\<rparr>, \<lparr>res_text = ''n06'', res_score = None\<rparr>,
           \<lparr>res_text = ''n07'', res_score = None\<rparr>, \<lparr>res_text = ''n08'', res_score = None\<rparr>,
           \<lparr>res_text = ''n09'', res_score = None\<rparr>, \<lparr>res_text = ''n10'', res_score = None\<rparr>,
           \<lparr>res_text = ''n11'', res_score = None\<rparr>, \<lparr>res_text = ''n12'', res_score = None\<rparr>]"
    by (simp add: list_eval_defs demo_env_sel look')
  with ok cnt show ?thesis by simp
qed


text \<open>
  C9. From a state reached by a sequence of calls in which the collection holds \<open>n\<close>
  notes, two calls of \<open>add_note_to_db\<close> whose embedding requests succeed can run so
  that both read the count \<open>n\<close> before either writes. Both then write under the id
  \<open>n + 1\<close>: the first write stores the first note, the second replaces it, and the
  store ends with \<open>n + 1\<close> notes, the first call's note gone.
\<close>

theorem concurrent_add_same_id:
  assumes "c = run env calls get_qdrant_client"
    and "c QDRANT_COLLECTION_NAME = Some col"
    and "n = int (length (points col))"
    and "get_embedding env t1 = Inr v1"
    and "get_embedding env t2 = Inr v2"
    and "c1 = c(QDRANT_COLLECTION_NAME \<mapsto> col\<lparr>points := points col @
            [\<lparr>point_id = n + 1, vector = v1, payload = [(''text'', t1)]\<rparr>]\<rparr>)"
    and "c2 = c(QDRANT_COLLECTION_NAME \<mapsto> col\<lparr>points := points col @
            [\<lparr>point_id = n + 1, vector = v2, payload = [(''text'', t2)]\<rparr>]\<rparr>)"
  shows "(par_step env)\<^sup>*\<^sup>* (AtCount t1, AtCount t2, c) (AtUpsert t1 n, AtUpsert t2 n, c) \<and>
         par_step env (AtUpsert t1 n, AtUpsert t2 n, c) (Done (Inr ()), AtUpsert t2 n, c1) \<and>
         par_step env (Done (Inr ()), AtUpsert t2 n, c1) (Done (Inr ()), Done (Inr ()), c2) \<and>
         (par_step env)\<^sup>*\<^sup>* (AtCount t1, AtCount t2, c) (Done (Inr ()), Done (Inr ()), c2) \<and>
         count QDRANT_COLLECTION_NAME c = Inr n \<and>
         count QDRANT_COLLECTION_NAME c2 = Inr (n + 1)"
proof -
  let ?p1 = "\<lparr>point_id = n + 1, vector = v1, payload = [(''text'', t1)]\<rparr>"
  let ?p2 = "\<lparr>point_id = n + 1, vector = v2, payload = [(''text'', t2)]\<rparr>"
  from assms(1) have "store_inv c"
    by (simp add: store_inv_reachable)
  with assms(2) have "ids_sequential (points col)"
    by (simp add: store_inv_def)
  then have fresh: "n + 1 \<notin> point_id ` set (points col)"
    unfolding assms(3) by (rule ids_sequential_fresh)
  have cnt: "add_note_count c = Inr n"
    using assms(2,3) by (simp add: add_note_count_def count_def)
  have read1: "add_step env (AtCount t1) c = Some (AtUpsert t1 n, c)"
    by (simp add: cnt)
  have read2: "add_step env (AtCount t2) c = Some (AtUpsert t2 n, c)"
    by (simp add: cnt)
  have "upsert_point ?p1 (points col) = points col @ [?p1]"
    using fresh by (simp add: upsert_point_fresh)
  then have write1: "add_step env (AtUpsert t1 n) c = Some (Done (Inr ()), c1)"
    using assms(2,4,6) by (simp add: add_note_upsert_def upsert_def)
  have "upsert_point ?p2 (points col @ [?p1]) = points col @ [?p2]"
    using fresh by (simp add: upsert_point_replace_last)
  then have write2: "add_step env (AtUpsert t2 n) c1 = Some (Done (Inr ()), c2)"
    using assms(5,6,7) by (simp add: add_note_upsert_def upsert_def)
  have s1: "par_step env (AtCount t1, AtCount t2, c) (AtUpsert t1 n, AtCount t2, c)"
    using read1 by (rule par_step.first)
  have s2: "par_step env (AtUpsert t1 n, AtCount t2, c) (AtUpsert t1 n, AtUpsert t2 n, c)"
    using read2 by (rule par_step.second)
  have s3: "par_step env (AtUpsert t1 n, AtUpsert t2 n, c) (Done (Inr ()), AtUpsert t2 n, c1)"
    using write1 by (rule par_step.first)
  have s4: "par_step env (Done (Inr ()), AtUpsert t2 n, c1) (Done (Inr ()), Done (Inr ()), c2)"
    using write2 by (rule par_step.second)
  have both_read:
    "(par_step env)\<^sup>*\<^sup>* (AtCount t1, AtCount t2, c) (AtUpsert t1 n, AtUpsert t2 n, c)"
    using s1 s2 by (rule converse_rtranclp_into_rtranclp [OF _ r_into_rtranclp])
  from both_read s3 s4
  have whole: "(par_step env)\<^sup>*\<^sup>* (AtCount t1, AtCount t2, c) (Done (Inr ()), Done (Inr ()), c2)"
    by (meson rtranclp.rtrancl_into_rtrancl)
  have "count QDRANT_COLLECTION_NAME c = Inr n"
    using assms(2,3) by (simp add: count_def)
  moreover have "count QDRANT_COLLECTION_NAME c2 = Inr (n + 1)"
    using assms(3,7) by (simp add: count_def)
  ultimately show ?thesis
    using both_read s3 s4 whole by blast
qed

theorem concurrent_add_same_id_witness:
  "(par_step demo_env)\<^sup>*\<^sup>*
     (AtCount ''one'', AtCount ''two'', run demo_env [Assure, Add ''ab''] get_qdrant_client)
     (Done (Inr ()), Done (Inr ()),
      (run demo_env [Assure, Add ''ab''] get_qdrant_client)
        (QDRANT_COLLECTION_NAME \<mapsto>
           \<lparr>config = \<lparr>vp_size = 3072, vp_distance = COSINE\<rparr>,
            points = [\<lparr>point_id = 1, vector = 2, payload = [(''text'', ''ab'')]\<rparr>,
                      \<lparr>point_id = 2, vector = 3, payload = [(''text'', ''two'')]\<rparr>]\<rparr>)) \<and>
   count QDRANT_COLLECTION_NAME (run demo_env [Assure, Add ''ab''] get_qdrant_client) = Inr 1 \<and>
   count QDRANT_COLLECTION_NAME
     ((run demo_env [Assure, Add ''ab''] get_qdrant_client)
        (QDRANT_COLLECTION_NAME \<mapsto>
           \<lparr>config = \<lparr>vp_size = 3072, vp_distance = COSINE\<rparr>,
            points = [\<lparr>point_id = 1, vector = 2::int, payload = [(''text'', ''ab'')]\<rparr>,
                      \<lparr>point_id = 2, vector = 3, payload = [(''text'', ''two'')]\<rparr>]\<rparr>)) = Inr 2"
proof -
  let ?c = "run demo_env [Assure, Add ''ab''] get_qdrant_client"
  let ?col = "\<lparr>config = \<lparr>vp_size = 3072, vp_distance = COSINE\<rparr>,
      points = [\<lparr>point_id = 1, vector = 2::int, payload = [(''text'', ''ab'')]\<rparr>]\<rparr>"
  have look: "?c QDRANT_COLLECTION_NAME = Some ?col"
    by (simp add: eval_defs)
  have n: "(1::int) = int (length (points ?col))" by simp
  have e1: "get_embedding demo_env ''one'' = Inr 3" by (simp add: demo_embedding)
  have e2: "get_embedding demo_env ''two'' = Inr 3" by (simp add: demo_embedding)
  from concurrent_add_same_id [OF refl look n e1 e2 refl refl]
  show ?thesis by simp
qed



end
